theory Spec2Isabelle
  imports Main "HOL-Library.AList"
begin

section \<open>Python values and the object store\<close>

text \<open>
  The methods of \<^verbatim>\<open>SonarrAPI\<close> (src/pyarr/sonarr_api.py) pass Python values to a
  request layer and read the decoded JSON it returns. Immutable values (\<^verbatim>\<open>None\<close>,
  booleans, integers, strings) are modelled by value. Lists and dicts are objects: a
  value of list or dict type is a reference into a store, so that two names for one
  object (\<^verbatim>\<open>s_dict = res[0]\<close>, \<^verbatim>\<open>for season in s_dict["seasons"]\<close>) see each other's
  writes, as in Python. Floats are not modelled. Strings are lists of 8-bit characters.
  The arguments the methods document as \<^verbatim>\<open>int\<close> or \<^verbatim>\<open>str\<close> (ids, terms, names, sort keys,
  dates) are scalars, \<^verbatim>\<open>None\<close> included; the flags documented as \<^verbatim>\<open>bool\<close> are booleans.
\<close>

datatype scalar = PNone | PBool bool | PInt int | PStr string

type_synonym addr = nat

datatype pyval = Val scalar | Ref addr

text \<open>A dict keeps its keys in insertion order; JSON objects have string keys.\<close>

datatype pyobj = OList "pyval list" | ODict "(string \<times> pyval) list"

text \<open>
  The exceptions of the model. \<open>RequestError\<close> stands for whatever the request layer
  raises. \<open>Dangling\<close> is not a Python exception: it is the model's answer to a
  reference outside the store, a state no Python program is in. \<open>NotFoundError\<close> and
  \<open>ValidationError\<close> are the names the specification uses; no line of
  sonarr_api.py raises either.
\<close>

datatype pyerr =
    IndexError | KeyError | TypeError | ValueError | AttributeError
  | RequestError | Dangling | NotFoundError | ValidationError

datatype http_verb = GET | POST | PUT | DELETE

record request =
  verb :: http_verb
  path :: string
  params :: pyval
  data :: pyval

text \<open>
  The world a method runs in: the object store, and the log of outbound requests, each
  with the store as it was when the request was handed to the request layer (what a
  reference inside the request meant at that moment).
\<close>

record world =
  heap :: "pyobj list"
  calls :: "(request \<times> pyobj list) list"

text \<open>
  The environment: what the request layer answers to a request (it may allocate the
  decoded response in the store, and may fail), and whether the platform's
  \<^verbatim>\<open>strftime\<close> writes \<^verbatim>\<open>%Y\<close> with four digits for years below 1000 (CPython from
  3.13 on, and C libraries other than glibc) or without padding (CPython up to 3.12 on
  glibc).
\<close>

record env =
  transport :: "request \<Rightarrow> pyobj list \<Rightarrow> pyobj list \<times> (pyerr + pyval)"
  pads_year :: bool

type_synonym 'a py = "world \<Rightarrow> world \<times> (pyerr + 'a)"

definition py_return :: "'a \<Rightarrow> 'a py" where
  "py_return x w = (w, Inr x)"

definition py_raise :: "pyerr \<Rightarrow> 'a py" where
  "py_raise e w = (w, Inl e)"

definition py_bind :: "'a py \<Rightarrow> ('a \<Rightarrow> 'b py) \<Rightarrow> 'b py" where
  "py_bind m f w = (case m w of (w', Inl e) \<Rightarrow> (w', Inl e) | (w', Inr x) \<Rightarrow> f x w')"

definition heap_at :: "pyobj list \<Rightarrow> addr \<Rightarrow> pyobj option" where
  "heap_at h a = (if a < length h then Some (h ! a) else None)"

definition deref :: "addr \<Rightarrow> pyobj py" where
  "deref a w = (case heap_at (heap w) a of None \<Rightarrow> (w, Inl Dangling) | Some ob \<Rightarrow> (w, Inr ob))"

text \<open>A list or dict display allocates a new object.\<close>

definition alloc :: "pyobj \<Rightarrow> pyval py" where
  "alloc ob w = (w\<lparr>heap := heap w @ [ob]\<rparr>, Inr (Ref (length (heap w))))"

definition store :: "addr \<Rightarrow> pyobj \<Rightarrow> unit py" where
  "store a ob w = (w\<lparr>heap := (heap w)[a := ob]\<rparr>, Inr ())"

subsection \<open>Truth value, \<^verbatim>\<open>str()\<close>, and default arguments\<close>

fun truthy :: "scalar \<Rightarrow> bool" where
  "truthy PNone = False"
| "truthy (PBool b) = b"
| "truthy (PInt i) = (i \<noteq> 0)"
| "truthy (PStr s) = (s \<noteq> [])"

fun py_truthy :: "pyval \<Rightarrow> bool py" where
  "py_truthy (Val s) = py_return (truthy s)"
| "py_truthy (Ref a) =
     py_bind (deref a) (\<lambda>ob. case ob of
         OList xs \<Rightarrow> py_return (xs \<noteq> [])
       | ODict d \<Rightarrow> py_return (d \<noteq> []))"

fun str_nat :: "nat \<Rightarrow> string" where
  "str_nat n =
     (if n < 10 then [''0123456789'' ! n]
      else str_nat (n div 10) @ [''0123456789'' ! (n mod 10)])"

definition str_int :: "int \<Rightarrow> string" where
  "str_int i = (if i < 0 then CHR ''-'' # str_nat (nat (- i)) else str_nat (nat i))"

text \<open>What an f-string writes for \<^verbatim>\<open>{x}\<close>.\<close>

fun py_str :: "scalar \<Rightarrow> string" where
  "py_str PNone = ''None''"
| "py_str (PBool b) = (if b then ''True'' else ''False'')"
| "py_str (PInt i) = str_int i"
| "py_str (PStr s) = s"

text \<open>
  An optional parameter that the caller leaves out takes its default. A parameter whose
  default is \<^verbatim>\<open>None\<close> is a plain scalar: leaving it out is passing \<^verbatim>\<open>None\<close>.
\<close>

definition dflt :: "'a \<Rightarrow> 'a option \<Rightarrow> 'a" where
  "dflt d a = (case a of None \<Rightarrow> d | Some v \<Rightarrow> v)"

subsection \<open>The request layer\<close>

text \<open>
  Modelled from the spec: \<^verbatim>\<open>RequestAPI\<close> (request_api.py), the base class whose
  \<^verbatim>\<open>request_get\<close> and \<^verbatim>\<open>request_post\<close> the methods call, is not under src/. The
  specification gives it as the primitives \<^verbatim>\<open>get(path, params) -> JSON\<close> and
  \<^verbatim>\<open>post(path, body) -> JSON\<close>, one network round trip each, failures surfaced to the
  caller. The model logs the request and returns the environment's answer; an
  argument the caller leaves out is \<^verbatim>\<open>None\<close>.
\<close>

definition send :: "env \<Rightarrow> request \<Rightarrow> pyval py" where
  "send ev r w =
     (case transport ev r (heap w) of
        (h', res) \<Rightarrow> (\<lparr>heap = h', calls = calls w @ [(r, heap w)]\<rparr>, res))"

definition request_get :: "env \<Rightarrow> string \<Rightarrow> pyval \<Rightarrow> pyval py" where
  "request_get ev p ps = send ev \<lparr>verb = GET, path = p, params = ps, data = Val PNone\<rparr>"

definition request_post :: "env \<Rightarrow> string \<Rightarrow> pyval \<Rightarrow> pyval py" where
  "request_post ev p d = send ev \<lparr>verb = POST, path = p, params = Val PNone, data = d\<rparr>"

text \<open>The dict a value refers to in a store, used to read a logged request.\<close>

fun dict_at :: "pyobj list \<Rightarrow> pyval \<Rightarrow> (string \<times> pyval) list option" where
  "dict_at h (Val s) = None"
| "dict_at h (Ref a) = (case heap_at h a of Some (ODict d) \<Rightarrow> Some d | _ \<Rightarrow> None)"

subsection \<open>Operations on objects\<close>

text \<open>
  \<^verbatim>\<open>x[i]\<close> with an integer \<open>i\<close>: an element of a list (a negative index counts from
  the end), a character of a string; a dict with string keys has no key \<open>i\<close>; any other
  value is not subscriptable.
\<close>

definition index_list :: "'a list \<Rightarrow> int \<Rightarrow> 'a option" where
  "index_list xs i =
     (if 0 \<le> i \<and> i < int (length xs) then Some (xs ! nat i)
      else if i < 0 \<and> - i \<le> int (length xs) then Some (xs ! nat (int (length xs) + i))
      else None)"

fun py_index :: "pyval \<Rightarrow> int \<Rightarrow> pyval py" where
  "py_index (Val (PStr s)) i =
     (case index_list s i of None \<Rightarrow> py_raise IndexError
      | Some c \<Rightarrow> py_return (Val (PStr [c])))"
| "py_index (Val _) i = py_raise TypeError"
| "py_index (Ref a) i =
     py_bind (deref a) (\<lambda>ob. case ob of
         OList xs \<Rightarrow> (case index_list xs i of None \<Rightarrow> py_raise IndexError
                      | Some x \<Rightarrow> py_return x)
       | ODict d \<Rightarrow> py_raise KeyError)"

text \<open>\<^verbatim>\<open>x["k"]\<close>: the value under the key of a dict; every other value raises TypeError.\<close>

fun py_item :: "pyval \<Rightarrow> string \<Rightarrow> pyval py" where
  "py_item (Val _) k = py_raise TypeError"
| "py_item (Ref a) k =
     py_bind (deref a) (\<lambda>ob. case ob of
         OList xs \<Rightarrow> py_raise TypeError
       | ODict d \<Rightarrow> (case map_of d k of None \<Rightarrow> py_raise KeyError
                     | Some x \<Rightarrow> py_return x))"

text \<open>\<^verbatim>\<open>x.get("k")\<close>: only a dict has the method.\<close>

fun py_get :: "pyval \<Rightarrow> string \<Rightarrow> pyval py" where
  "py_get (Val _) k = py_raise AttributeError"
| "py_get (Ref a) k =
     py_bind (deref a) (\<lambda>ob. case ob of
         OList xs \<Rightarrow> py_raise AttributeError
       | ODict d \<Rightarrow> py_return (case map_of d k of None \<Rightarrow> Val PNone | Some x \<Rightarrow> x))"

text \<open>
  \<^verbatim>\<open>x["k"] = v\<close>: writes into the dict object itself (an existing key keeps its place, a
  new one goes last); a list wants an integer index, and no scalar supports item
  assignment.
\<close>

fun py_setitem :: "pyval \<Rightarrow> string \<Rightarrow> pyval \<Rightarrow> unit py" where
  "py_setitem (Val _) k v = py_raise TypeError"
| "py_setitem (Ref a) k v =
     py_bind (deref a) (\<lambda>ob. case ob of
         OList xs \<Rightarrow> py_raise TypeError
       | ODict d \<Rightarrow> store a (ODict (AList.update k v d)))"

text \<open>
  The items a \<^verbatim>\<open>for\<close> loop visits: the elements of a list, the keys of a dict, the
  characters of a string; no other scalar is iterable.
\<close>

fun py_iter :: "pyval \<Rightarrow> pyval list py" where
  "py_iter (Val (PStr s)) = py_return (map (\<lambda>c. Val (PStr [c])) s)"
| "py_iter (Val _) = py_raise TypeError"
| "py_iter (Ref a) =
     py_bind (deref a) (\<lambda>ob. case ob of
         OList xs \<Rightarrow> py_return xs
       | ODict d \<Rightarrow> py_return (map (\<lambda>kv. Val (PStr (fst kv))) d))"

text \<open>\<^verbatim>\<open>s + x\<close> for a string \<open>s\<close>: concatenation with a string, TypeError otherwise.\<close>

fun py_concat :: "string \<Rightarrow> pyval \<Rightarrow> pyval py" where
  "py_concat s (Val (PStr t)) = py_return (Val (PStr (s @ t)))"
| "py_concat s _ = py_raise TypeError"

section \<open>The endpoint methods\<close>

subsection \<open>Lookup (lines 525-550)\<close>

definition lookup_series :: "env \<Rightarrow> scalar \<Rightarrow> pyval py" where
  "lookup_series ev term =
     py_bind (alloc (ODict [(''term'', Val term)])) (\<lambda>ps.
     request_get ev ''/api/series/lookup'' ps)"


subsection \<open>Commands (lines 86-121)\<close>

definition get_command :: "env \<Rightarrow> scalar \<Rightarrow> pyval py" where
  "get_command ev id' =
     (let p = (if truthy id' then ''/api/command/'' @ py_str id' else ''/api/command'')
      in request_get ev p (Val PNone))"


subsection \<open>History (lines 243-265), tags (lines 583-597), logs (lines 645-677)\<close>

definition get_history ::
  "env \<Rightarrow> scalar \<Rightarrow> scalar option \<Rightarrow> scalar option \<Rightarrow> scalar option \<Rightarrow> scalar \<Rightarrow> pyval py" where
  "get_history ev sort_key' page page_size sort_dir id' =
     py_bind (alloc (ODict
        [(''sortKey'', Val sort_key'),
         (''page'', Val (dflt (PInt 1) page)),
         (''pageSize'', Val (dflt (PInt 10) page_size)),
         (''sortDir'', Val (dflt (PStr ''desc'') sort_dir))])) (\<lambda>ps.
     py_bind (if truthy id' then py_setitem ps ''episodeId'' (Val id') else py_return ()) (\<lambda>_.
     request_get ev ''/api/history'' ps))"

definition get_tag :: "env \<Rightarrow> scalar \<Rightarrow> pyval py" where
  "get_tag ev id' =
     (let p = (if \<not> truthy id' then ''/api/tag'' else ''/api/tag/'' @ py_str id')
      in request_get ev p (Val PNone))"

definition get_logs ::
  "env \<Rightarrow> scalar option \<Rightarrow> scalar option \<Rightarrow> scalar option \<Rightarrow> scalar option \<Rightarrow>
   scalar option \<Rightarrow> scalar option \<Rightarrow> pyval py" where
  "get_logs ev page page_size sort_key' sort_dir filter_key filter_value =
     py_bind (alloc (ODict
        [(''page'', Val (dflt (PInt 1) page)),
         (''pageSize'', Val (dflt (PInt 10) page_size)),
         (''sortKey'', Val (dflt (PStr ''time'') sort_key')),
         (''sortDir'', Val (dflt (PStr ''desc'') sort_dir)),
         (''filterKey'', Val (dflt PNone filter_key)),
         (''filterValue'', Val (dflt (PStr ''All'') filter_value))])) (\<lambda>ps.
     request_get ev ''/api/log'' ps)"

subsection \<open>Calendar (lines 61-81)\<close>

text \<open>
  \<^verbatim>\<open>datetime.strptime(s, "%Y-%m-%d")\<close> is Python's library, not this repository; it is
  modelled after CPython's \<^verbatim>\<open>_strptime.py\<close>. The format becomes the regular expression
  \<^verbatim>\<open>(?P<Y>\d\d\d\d)-(?P<m>1[0-2]|0[1-9]|[1-9])-(?P<d>3[0-1]|[1-2]\d|0[1-9]|[1-9]| [1-9])\<close>,
  matched at the start of the string; text left over after the match, and a day that
  the month does not have, are errors. A group of the expression is a list of
  alternatives, an alternative a list of character classes, a class the string of its
  characters. Digits are the ASCII digits.
\<close>

fun match_seq :: "string list \<Rightarrow> string \<Rightarrow> (string \<times> string) option" where
  "match_seq [] s = Some ([], s)"
| "match_seq (cl # cls) [] = None"
| "match_seq (cl # cls) (c # s) =
     (if c \<in> set cl
      then (case match_seq cls s of None \<Rightarrow> None | Some (m, r) \<Rightarrow> Some (c # m, r))
      else None)"

text \<open>The alternatives that match, in the order the expression lists them.\<close>

definition match_alts :: "string list list \<Rightarrow> string \<Rightarrow> (string \<times> string) list" where
  "match_alts alts s = List.map_filter (\<lambda>a. match_seq a s) alts"

text \<open>
  All matches of a sequence of groups, in the order a backtracking matcher finds them;
  \<^verbatim>\<open>re.match\<close> returns the first.
\<close>

fun match_groups :: "string list list list \<Rightarrow> string \<Rightarrow> (string list \<times> string) list" where
  "match_groups [] s = [([], s)]"
| "match_groups (g # gs) s =
     concat (map (\<lambda>(m, r). map (\<lambda>(ms, r'). (m # ms, r')) (match_groups gs r))
                 (match_alts g s))"

definition re_Y :: "string list list" where
  "re_Y = [[''0123456789'', ''0123456789'', ''0123456789'', ''0123456789'']]"

definition re_m :: "string list list" where
  "re_m = [[''1'', ''012''], [''0'', ''123456789''], [''123456789'']]"

definition re_d :: "string list list" where
  "re_d = [[''3'', ''01''], [''12'', ''0123456789''], [''0'', ''123456789''],
           [''123456789''], ['' '', ''123456789'']]"

definition re_dash :: "string list list" where
  "re_dash = [[''-'']]"

definition digit_val :: "char \<Rightarrow> nat" where
  "digit_val c = of_char c - 48"

text \<open>\<^verbatim>\<open>int(s)\<close> on a matched group: leading blanks are skipped.\<close>

definition int_of_str :: "string \<Rightarrow> nat" where
  "int_of_str s = foldl (\<lambda>n c. 10 * n + digit_val c) 0 (dropWhile (\<lambda>c. c = CHR '' '') s)"

definition is_leap :: "nat \<Rightarrow> bool" where
  "is_leap y = (y mod 4 = 0 \<and> (y mod 100 \<noteq> 0 \<or> y mod 400 = 0))"

definition days_in_month :: "nat \<Rightarrow> nat \<Rightarrow> nat" where
  "days_in_month y m =
     (if m = 2 then (if is_leap y then 29 else 28)
      else if m = 4 \<or> m = 6 \<or> m = 9 \<or> m = 11 then 30 else 31)"

text \<open>The dates \<^verbatim>\<open>datetime\<close> can hold: years 1 to 9999.\<close>

definition valid_date :: "nat \<Rightarrow> nat \<Rightarrow> nat \<Rightarrow> bool" where
  "valid_date y m d =
     (1 \<le> y \<and> y \<le> 9999 \<and> 1 \<le> m \<and> m \<le> 12 \<and> 1 \<le> d \<and> d \<le> days_in_month y m)"

text \<open>Every failure of \<^verbatim>\<open>strptime\<close> on a string is a \<^verbatim>\<open>ValueError\<close>.\<close>

definition strptime :: "string \<Rightarrow> pyerr + (nat \<times> nat \<times> nat)" where
  "strptime s =
     (case match_groups [re_Y, re_dash, re_m, re_dash, re_d] s of
        ([ys, _, ms, _, ds], rest) # _ \<Rightarrow>
          if rest \<noteq> [] then Inl ValueError
          else (let y = int_of_str ys; m = int_of_str ms; d = int_of_str ds
                in if valid_date y m d then Inr (y, m, d) else Inl ValueError)
      | _ \<Rightarrow> Inl ValueError)"

text \<open>An argument that is not a string is a \<^verbatim>\<open>TypeError\<close>.\<close>

definition py_strptime :: "scalar \<Rightarrow> (nat \<times> nat \<times> nat) py" where
  "py_strptime x =
     (case x of
        PStr s \<Rightarrow> (case strptime s of Inl e \<Rightarrow> py_raise e | Inr dt \<Rightarrow> py_return dt)
      | _ \<Rightarrow> py_raise TypeError)"

definition zero_pad :: "nat \<Rightarrow> string \<Rightarrow> string" where
  "zero_pad n s = replicate (n - length s) CHR ''0'' @ s"

text \<open>
  \<^verbatim>\<open>.strftime("%Y-%m-%d")\<close>: month and day have two digits; the year has four on a
  platform that pads it, and as many as it needs otherwise.
\<close>

definition strftime :: "bool \<Rightarrow> nat \<times> nat \<times> nat \<Rightarrow> string" where
  "strftime pads dt =
     (case dt of (y, m, d) \<Rightarrow>
        (if pads then zero_pad 4 (str_nat y) else str_nat y)
        @ ''-'' @ zero_pad 2 (str_nat m) @ ''-'' @ zero_pad 2 (str_nat d))"

definition get_calendar :: "env \<Rightarrow> scalar \<Rightarrow> scalar \<Rightarrow> pyval py" where
  "get_calendar ev start_date end_date =
     py_bind (alloc (ODict [])) (\<lambda>ps.
     py_bind (if truthy start_date
              then py_bind (py_strptime start_date) (\<lambda>dt.
                   py_setitem ps ''start'' (Val (PStr (strftime (pads_year ev) dt))))
              else py_return ()) (\<lambda>_.
     py_bind (if truthy end_date
              then py_bind (py_strptime end_date) (\<lambda>dt.
                   py_setitem ps ''end'' (Val (PStr (strftime (pads_year ev) dt))))
              else py_return ()) (\<lambda>_.
     request_get ev ''/api/calendar'' ps)))"

text \<open>
  A valid \<^verbatim>\<open>YYYY-MM-DD\<close> date string: four digits, a dash, two digits, a dash, two
  digits, naming a day that exists.
\<close>

definition is_digit :: "char \<Rightarrow> bool" where
  "is_digit c = (c \<in> set ''0123456789'')"

definition valid_ymd :: "string \<Rightarrow> bool" where
  "valid_ymd s =
     (case s of
        [a, b, c, d, p, e, f, q, g, h] \<Rightarrow>
          is_digit a \<and> is_digit b \<and> is_digit c \<and> is_digit d \<and> p = CHR ''-''
          \<and> is_digit e \<and> is_digit f \<and> q = CHR ''-'' \<and> is_digit g \<and> is_digit h
          \<and> valid_date (int_of_str [a, b, c, d]) (int_of_str [e, f]) (int_of_str [g, h])
      | _ \<Rightarrow> False)"

text \<open>The number a string of digits writes.\<close>

definition val_of :: "string \<Rightarrow> nat" where
  "val_of s = foldl (\<lambda>n c. 10 * n + digit_val c) 0 s"

subsection \<open>Series payload (lines 9-56) and adding a series (lines 455-493)\<close>

text \<open>
  The loop of lines 37-38 over the items the \<^verbatim>\<open>for\<close> statement visits. Its body writes
  into dicts only, so the list it iterates over does not change under it.
\<close>

fun seasons_loop :: "pyval list \<Rightarrow> unit py" where
  "seasons_loop [] = py_return ()"
| "seasons_loop (season # rest) =
     py_bind (py_setitem season ''monitored'' (Val (PBool False))) (\<lambda>_. seasons_loop rest)"

definition construct_series_json ::
  "env \<Rightarrow> scalar \<Rightarrow> scalar \<Rightarrow> string \<Rightarrow> bool option \<Rightarrow> bool option \<Rightarrow> bool option \<Rightarrow>
   bool option \<Rightarrow> bool option \<Rightarrow> pyval py" where
  "construct_series_json ev tvdb_id quality_profile_id root_dir season_folder monitored
       ignore_episodes_with_files ignore_episodes_without_files search_for_missing_episodes =
     py_bind (lookup_series ev tvdb_id) (\<lambda>res.
     py_bind (py_index res 0) (\<lambda>s_dict.
     py_bind (if \<not> dflt True monitored
              then py_bind (py_get s_dict ''seasons'') (\<lambda>found.
                   py_bind (py_truthy found) (\<lambda>nonempty.
                   if nonempty
                   then py_bind (py_item s_dict ''seasons'') (\<lambda>ss.
                        py_bind (py_iter ss) seasons_loop)
                   else py_return ()))
              else py_return ()) (\<lambda>_.
     py_bind (py_item s_dict ''title'') (\<lambda>title.
     py_bind (py_item s_dict ''seasons'') (\<lambda>seasons.
     py_bind (py_item s_dict ''title'') (\<lambda>title'.
     py_bind (py_concat root_dir title') (\<lambda>path'.
     py_bind (py_item s_dict ''images'') (\<lambda>images.
     py_bind (py_item s_dict ''titleSlug'') (\<lambda>title_slug.
     py_bind (alloc (ODict
        [(''ignoreEpisodesWithFiles'', Val (PBool (dflt False ignore_episodes_with_files))),
         (''ignoreEpisodesWithoutFiles'', Val (PBool (dflt False ignore_episodes_without_files))),
         (''searchForMissingEpisodes'', Val (PBool (dflt False search_for_missing_episodes)))]))
       (\<lambda>add_options.
     alloc (ODict
        [(''title'', title),
         (''seasons'', seasons),
         (''path'', path'),
         (''qualityProfileId'', Val quality_profile_id),
         (''seasonFolder'', Val (PBool (dflt True season_folder))),
         (''monitored'', Val (PBool (dflt True monitored))),
         (''tvdbId'', Val tvdb_id),
         (''images'', images),
         (''titleSlug'', title_slug),
         (''addOptions'', add_options)])))))))))))"

definition add_series ::
  "env \<Rightarrow> scalar \<Rightarrow> scalar \<Rightarrow> string \<Rightarrow> bool option \<Rightarrow> bool option \<Rightarrow> bool option \<Rightarrow>
   bool option \<Rightarrow> bool option \<Rightarrow> pyval py" where
  "add_series ev tvdb_id quality_profile_id root_dir season_folder monitored
       ignore_episodes_with_files ignore_episodes_without_files search_for_missing_episodes =
     py_bind (construct_series_json ev tvdb_id quality_profile_id root_dir
                (Some (dflt True season_folder)) (Some (dflt True monitored))
                (Some (dflt False ignore_episodes_with_files))
                (Some (dflt False ignore_episodes_without_files))
                (Some (dflt False search_for_missing_episodes))) (\<lambda>series_json.
     request_post ev ''/api/series'' series_json)"

section \<open>Concrete environments for the examples\<close>

text \<open>A request layer that answers every request with \<^verbatim>\<open>None\<close>, and the empty world.\<close>

definition env0 :: env where
  "env0 = \<lparr>transport = (\<lambda>r h. (h, Inr (Val PNone))), pads_year = False\<rparr>"

definition w0 :: world where
  "w0 = \<lparr>heap = [], calls = []\<rparr>"

text \<open>
  A request layer that answers every request with an empty list, and one that answers
  with one series of one monitored season; \<open>w_series\<close> is the world after the lookup of
  that series.
\<close>

definition env_empty :: env where
  "env_empty = \<lparr>transport = (\<lambda>r h. (h @ [OList []], Inr (Ref (length h)))), pads_year = False\<rparr>"

definition env_series :: env where
  "env_series = \<lparr>transport = (\<lambda>r h.
       (h @ [ODict [(''seasonNumber'', Val (PInt 1)), (''monitored'', Val (PBool True))],
             OList [Ref (length h)],
             OList [],
             ODict [(''title'', Val (PStr ''Show'')), (''seasons'', Ref (length h + 1)),
                    (''images'', Ref (length h + 2)), (''titleSlug'', Val (PStr ''show''))],
             OList [Ref (length h + 3)]],
        Inr (Ref (length h + 4)))), pads_year = False\<rparr>"


definition w_series :: world where
  "w_series = fst (lookup_series env_series (PInt 42) w0)"

section \<open>Notions for the frame of the payload construction\<close>

text \<open>What the loop makes of an object it visits.\<close>

fun unmonitored :: "pyobj \<Rightarrow> pyobj" where
  "unmonitored (ODict d) = ODict (AList.update ''monitored'' (Val (PBool False)) d)"
| "unmonitored (OList xs) = OList xs"



section \<open>Properties of the request layer and the store\<close>

lemma heap_at_snoc: "heap_at (h @ [ob]) (length h) = Some ob"
  by (simp add: heap_at_def)

lemma calls_send: "calls (fst (send ev r w)) = calls w @ [(r, heap w)]"
  by (simp add: send_def split: prod.splits)

section \<open>Lookup by provider id\<close>


section \<open>Running a command\<close>



section \<open>Optional ids\<close>

text \<open>
  Claim C9. Whether an optional id is present is decided by its truth value: for every
  falsy id (\<^verbatim>\<open>0\<close>, \<^verbatim>\<open>None\<close>, \<^verbatim>\<open>False\<close>, \<^verbatim>\<open>""\<close>), \<^verbatim>\<open>get_command\<close> and \<^verbatim>\<open>get_tag\<close>
  request the collection paths \<^verbatim>\<open>/api/command\<close> and \<^verbatim>\<open>/api/tag\<close>, and \<^verbatim>\<open>get_history\<close>
  sends no \<^verbatim>\<open>episodeId\<close>; each does exactly what it does when no id is given.
\<close>

theorem falsy_id_is_absent:
  assumes "\<not> truthy i"
  shows "get_command ev i w = request_get ev ''/api/command'' (Val PNone) w
    \<and> get_command ev i w = get_command ev PNone w
    \<and> get_tag ev i w = request_get ev ''/api/tag'' (Val PNone) w
    \<and> get_tag ev i w = get_tag ev PNone w
    \<and> get_history ev sk p ps sd i w = get_history ev sk p ps sd PNone w
    \<and> (\<exists>r h d. calls (fst (get_history ev sk p ps sd i w)) = calls w @ [(r, h)]
          \<and> verb r = GET \<and> path r = ''/api/history''
          \<and> dict_at h (params r) = Some d \<and> map_of d ''episodeId'' = None)"
  using assms
  by (simp add: get_command_def get_tag_def get_history_def py_bind_def alloc_def
      py_return_def request_get_def calls_send heap_at_snoc)

theorem falsy_id_is_absent_witness:
  "\<not> truthy (PInt 0)
   \<and> get_command env0 (PInt 0) w0 = request_get env0 ''/api/command'' (Val PNone) w0
   \<and> get_tag env0 (PInt 0) w0 = request_get env0 ''/api/tag'' (Val PNone) w0
   \<and> get_history env0 (PStr ''date'') None None None (PInt 0) w0
       = get_history env0 (PStr ''date'') None None None PNone w0"
  using falsy_id_is_absent [of "PInt 0" env0 w0 "PStr ''date''" None None None]
  by simp

section \<open>Logs\<close>

text \<open>
  Claim C10. Every call of \<^verbatim>\<open>get_logs\<close> sends one GET to \<^verbatim>\<open>/api/log\<close> whose parameter
  dict has all six keys \<^verbatim>\<open>page\<close>, \<^verbatim>\<open>pageSize\<close>, \<^verbatim>\<open>sortKey\<close>, \<^verbatim>\<open>sortDir\<close>, \<^verbatim>\<open>filterKey\<close>,
  \<^verbatim>\<open>filterValue\<close>; with the default arguments \<^verbatim>\<open>filterKey\<close> is \<^verbatim>\<open>None\<close> and
  \<^verbatim>\<open>filterValue\<close> is \<^verbatim>\<open>"All"\<close>. No key is ever left out.
\<close>

theorem get_logs_sends_six_params:
  "(\<exists>r h. calls (fst (get_logs ev page page_size sk sort_dir filter_key filter_value w))
             = calls w @ [(r, h)]
       \<and> verb r = GET \<and> path r = ''/api/log''
       \<and> dict_at h (params r) = Some
           [(''page'', Val (dflt (PInt 1) page)),
            (''pageSize'', Val (dflt (PInt 10) page_size)),
            (''sortKey'', Val (dflt (PStr ''time'') sk)),
            (''sortDir'', Val (dflt (PStr ''desc'') sort_dir)),
            (''filterKey'', Val (dflt PNone filter_key)),
            (''filterValue'', Val (dflt (PStr ''All'') filter_value))])
   \<and> (\<exists>r h. calls (fst (get_logs ev None None None None None None w)) = calls w @ [(r, h)]
       \<and> dict_at h (params r) = Some
           [(''page'', Val (PInt 1)), (''pageSize'', Val (PInt 10)),
            (''sortKey'', Val (PStr ''time'')), (''sortDir'', Val (PStr ''desc'')),
            (''filterKey'', Val PNone), (''filterValue'', Val (PStr ''All''))])"
  by (simp add: get_logs_def py_bind_def alloc_def request_get_def calls_send heap_at_snoc
      dflt_def)

section \<open>Dates\<close>

declare str_nat.simps [simp del]

lemma str_nat_small: "k < 10 \<Longrightarrow> str_nat k = [''0123456789'' ! k]"
  by (simp add: str_nat.simps)

lemma str_nat_step:
  "0 < n \<Longrightarrow> k < 10 \<Longrightarrow> str_nat (10 * n + k) = str_nat n @ [''0123456789'' ! k]"
  by (subst str_nat.simps) simp

lemma digit_of_val: "is_digit c \<Longrightarrow> ''0123456789'' ! digit_val c = c"
  by (auto simp: is_digit_def digit_val_def)

lemma digit_val_less: "is_digit c \<Longrightarrow> digit_val c < 10"
  by (auto simp: is_digit_def digit_val_def)

lemma val_of_snoc: "val_of (s @ [c]) = 10 * val_of s + digit_val c"
  by (simp add: val_of_def)

lemma val_of_zero:
  "list_all is_digit s \<Longrightarrow> val_of s = 0 \<Longrightarrow> s = replicate (length s) CHR ''0''"
proof (induction s rule: rev_induct)
  case Nil
  then show ?case by simp
next
  case (snoc c s)
  then have z: "val_of s = 0" "digit_val c = 0" and dg: "is_digit c" "list_all is_digit s"
    by (simp_all add: val_of_snoc)
  from dg(1) z(2) have c: "c = CHR ''0''"
    by (auto simp: is_digit_def digit_val_def)
  have s: "s = replicate (length s) CHR ''0''"
    by (rule snoc.IH [OF dg(2) z(1)])
  have "s @ [c] = replicate (length s) CHR ''0'' @ [CHR ''0'']"
    using s c by simp
  also have "\<dots> = replicate (Suc (length s)) CHR ''0''"
    by (simp add: replicate_append_same)
  finally show ?case by simp
qed

lemma length_str_nat_pos: "0 < length (str_nat n)"
  by (subst str_nat.simps) simp

lemma zero_pad_val_of:
  "list_all is_digit s \<Longrightarrow> s \<noteq> [] \<Longrightarrow> zero_pad (length s) (str_nat (val_of s)) = s"
proof (induction s rule: rev_induct)
  case Nil
  then show ?case by simp
next
  case (snoc c s)
  then have dg: "is_digit c" "list_all is_digit s" by simp_all
  show ?case
  proof (cases "val_of s = 0")
    case True
    then have "s = replicate (length s) CHR ''0''"
      using dg(2) val_of_zero by blast
    then have "replicate (length s) CHR ''0'' @ [c] = s @ [c]"
      by simp
    then show ?thesis
      using dg(1) True
      by (simp add: val_of_snoc str_nat_small digit_val_less digit_of_val zero_pad_def)
  next
    case False
    then have ne: "s \<noteq> []" by (auto simp: val_of_def)
    have "zero_pad (length s) (str_nat (val_of s)) = s"
      using snoc.IH dg(2) ne by simp
    then show ?thesis
      using False dg(1)
      by (simp add: val_of_snoc str_nat_step digit_val_less digit_of_val zero_pad_def)
  qed
qed





lemma digit_val_chars:
  "digit_val CHR ''0'' = 0" "digit_val CHR ''1'' = 1" "digit_val CHR ''2'' = 2"
  "digit_val CHR ''3'' = 3" "digit_val CHR ''4'' = 4" "digit_val CHR ''5'' = 5"
  "digit_val CHR ''6'' = 6" "digit_val CHR ''7'' = 7" "digit_val CHR ''8'' = 8"
  "digit_val CHR ''9'' = 9"
  by (simp_all add: digit_val_def)

lemma is_digit_cases:
  "is_digit c \<Longrightarrow> c = CHR ''0'' \<or> c = CHR ''1'' \<or> c = CHR ''2'' \<or> c = CHR ''3'' \<or> c = CHR ''4''
     \<or> c = CHR ''5'' \<or> c = CHR ''6'' \<or> c = CHR ''7'' \<or> c = CHR ''8'' \<or> c = CHR ''9''"
  by (simp add: is_digit_def)

lemma digit_eq_0: "is_digit c \<Longrightarrow> digit_val c = 0 \<Longrightarrow> c = CHR ''0''"
  by (drule is_digit_cases) (auto simp: digit_val_chars)

lemma digit_eq_1: "is_digit c \<Longrightarrow> digit_val c = 1 \<Longrightarrow> c = CHR ''1''"
  by (drule is_digit_cases) (auto simp: digit_val_chars)

lemma digit_eq_3: "is_digit c \<Longrightarrow> digit_val c = 3 \<Longrightarrow> c = CHR ''3''"
  by (drule is_digit_cases) (auto simp: digit_val_chars)

lemma digit_nonzero: "is_digit c \<Longrightarrow> digit_val c \<noteq> 0 \<Longrightarrow> c \<in> set ''123456789''"
  by (drule is_digit_cases) (auto simp: digit_val_chars)

lemma digit_le_1: "is_digit c \<Longrightarrow> digit_val c \<le> 1 \<Longrightarrow> c \<in> set ''01''"
  by (drule is_digit_cases) (auto simp: digit_val_chars)

lemma digit_le_2: "is_digit c \<Longrightarrow> digit_val c \<le> 2 \<Longrightarrow> c \<in> set ''012''"
  by (drule is_digit_cases) (auto simp: digit_val_chars)

lemma digit_1_2:
  "is_digit c \<Longrightarrow> digit_val c = 1 \<or> digit_val c = 2 \<Longrightarrow> c = CHR ''1'' \<or> c = CHR ''2''"
  by (drule is_digit_cases) (auto simp: digit_val_chars)

lemma month_shape:
  assumes "is_digit e" "is_digit f" "1 \<le> 10 * digit_val e + digit_val f"
    "10 * digit_val e + digit_val f \<le> 12"
  shows "(e = CHR ''0'' \<and> f \<in> set ''123456789'') \<or> (e = CHR ''1'' \<and> f \<in> set ''012'')"
proof -
  consider "digit_val e = 0" "digit_val f \<noteq> 0" | "digit_val e = 1" "digit_val f \<le> 2"
    using assms(3,4) by arith
  then show ?thesis
  proof cases
    case 1
    have a: "e = CHR ''0''" by (rule digit_eq_0 [OF assms(1) 1(1)])
    have b: "f \<in> set ''123456789''" by (rule digit_nonzero [OF assms(2) 1(2)])
    show ?thesis by (rule disjI1) (rule conjI [OF a b])
  next
    case 2
    have a: "e = CHR ''1''" by (rule digit_eq_1 [OF assms(1) 2(1)])
    have b: "f \<in> set ''012''" by (rule digit_le_2 [OF assms(2) 2(2)])
    show ?thesis by (rule disjI2) (rule conjI [OF a b])
  qed
qed

lemma day_shape:
  assumes "is_digit g" "is_digit h" "1 \<le> 10 * digit_val g + digit_val h"
    "10 * digit_val g + digit_val h \<le> 31"
  shows "(g = CHR ''0'' \<and> h \<in> set ''123456789'')
       \<or> ((g = CHR ''1'' \<or> g = CHR ''2'') \<and> is_digit h)
       \<or> (g = CHR ''3'' \<and> h \<in> set ''01'')"
proof -
  consider "digit_val g = 0" "digit_val h \<noteq> 0" | "digit_val g = 1 \<or> digit_val g = 2"
    | "digit_val g = 3" "digit_val h \<le> 1"
    using assms(3,4) by arith
  then show ?thesis
  proof cases
    case 1
    have a: "g = CHR ''0''" by (rule digit_eq_0 [OF assms(1) 1(1)])
    have b: "h \<in> set ''123456789''" by (rule digit_nonzero [OF assms(2) 1(2)])
    show ?thesis by (rule disjI1) (rule conjI [OF a b])
  next
    case 2
    have a: "g = CHR ''1'' \<or> g = CHR ''2''" by (rule digit_1_2 [OF assms(1) 2])
    show ?thesis by (rule disjI2, rule disjI1) (rule conjI [OF a assms(2)])
  next
    case 3
    have a: "g = CHR ''3''" by (rule digit_eq_3 [OF assms(1) 3(1)])
    have b: "h \<in> set ''01''" by (rule digit_le_1 [OF assms(2) 3(2)])
    show ?thesis by (rule disjI2, rule disjI2) (rule conjI [OF a b])
  qed
qed

lemma int_of_str_digits: "is_digit c \<Longrightarrow> int_of_str (c # s) = val_of (c # s)"
  by (auto simp: int_of_str_def val_of_def is_digit_def)

lemma match_Y:
  "is_digit a \<Longrightarrow> is_digit b \<Longrightarrow> is_digit c \<Longrightarrow> is_digit d
   \<Longrightarrow> match_alts re_Y (a # b # c # d # r) = [([a, b, c, d], r)]"
  by (simp add: match_alts_def re_Y_def List.map_filter_def is_digit_def)

lemma match_dash: "match_alts re_dash (c # r) = (if c = CHR ''-'' then [(''-'', r)] else [])"
  by (simp add: match_alts_def re_dash_def List.map_filter_def)


lemma match_m:
  assumes "(e = CHR ''0'' \<and> f \<in> set ''123456789'') \<or> (e = CHR ''1'' \<and> f \<in> set ''012'')"
  shows "match_groups (re_m # re_dash # gs) (e # f # CHR ''-'' # r)
         = map (\<lambda>(ms, r'). ([e, f] # ''-'' # ms, r')) (match_groups gs r)"
  using assms
proof (elim disjE conjE)
  assume "e = CHR ''0''" "f \<in> set ''123456789''"
  then show ?thesis
    by (clarsimp simp: match_alts_def re_m_def re_dash_def List.map_filter_def)
next
  assume e: "e = CHR ''1''" and "f \<in> set ''012''"
  then have "f = CHR ''0'' \<or> f = CHR ''1'' \<or> f = CHR ''2''" by simp
  then show ?thesis
    using e
    by (elim disjE) (clarsimp simp: match_alts_def re_m_def re_dash_def List.map_filter_def)+
qed

lemma match_d:
  assumes "(g = CHR ''0'' \<and> h \<in> set ''123456789'') \<or> ((g = CHR ''1'' \<or> g = CHR ''2'') \<and> is_digit h)
       \<or> (g = CHR ''3'' \<and> h \<in> set ''01'')"
  shows "\<exists>more. match_groups [re_d] [g, h] = ([[g, h]], []) # more"
  using assms
  apply (elim disjE conjE)
   apply (simp_all add: match_alts_def re_d_def List.map_filter_def is_digit_def)
  done




lemma length_str_nat_step: "10 \<le> n \<Longrightarrow> length (str_nat n) = Suc (length (str_nat (n div 10)))"
  by (subst str_nat.simps) simp

lemma length_str_nat_ge: "10 ^ k \<le> n \<Longrightarrow> k < length (str_nat n)"
proof (induction k arbitrary: n)
  case 0
  show ?case using length_str_nat_pos [of n] by simp
next
  case (Suc k)
  have pos: "(1::nat) \<le> 10 ^ k" by simp
  have big: "10 * 10 ^ k \<le> n" using Suc.prems by simp
  have "10 \<le> n" using pos big by arith
  moreover have "10 ^ k \<le> n div 10" using big by arith
  ultimately show ?case
    using Suc.IH [of "n div 10"] by (simp add: length_str_nat_step)
qed

lemma zero_pad_digits:
  "list_all is_digit s \<Longrightarrow> s \<noteq> [] \<Longrightarrow> n = length s \<Longrightarrow> zero_pad n (str_nat (val_of s)) = s"
  by (simp add: zero_pad_val_of)

lemma valid_ymd_shape:
  assumes "valid_ymd s"
  obtains a b c d e f g h where
    "s = [a, b, c, d, CHR ''-'', e, f, CHR ''-'', g, h]"
    "is_digit a" "is_digit b" "is_digit c" "is_digit d"
    "is_digit e" "is_digit f" "is_digit g" "is_digit h"
    "valid_date (int_of_str [a, b, c, d]) (int_of_str [e, f]) (int_of_str [g, h])"
  using assms by (auto simp: valid_ymd_def split: list.splits)

lemma zero_pad_id: "n \<le> length s \<Longrightarrow> zero_pad n s = s"
  by (simp add: zero_pad_def)

lemma strptime_valid:
  assumes "valid_ymd s"
  shows "\<exists>y m d. strptime s = Inr (y, m, d) \<and> y = int_of_str (take 4 s)
           \<and> strftime True (y, m, d) = s
           \<and> (1000 \<le> y \<longrightarrow> strftime False (y, m, d) = s)"
proof -
  from assms obtain a b c d e f g h where
    s: "s = [a, b, c, d, CHR ''-'', e, f, CHR ''-'', g, h]"
    and dg: "is_digit a" "is_digit b" "is_digit c" "is_digit d"
            "is_digit e" "is_digit f" "is_digit g" "is_digit h"
    and vd: "valid_date (int_of_str [a, b, c, d]) (int_of_str [e, f]) (int_of_str [g, h])"
    by (rule valid_ymd_shape)
  define y where "y = val_of [a, b, c, d]"
  define m where "m = val_of [e, f]"
  define dd where "dd = val_of [g, h]"
  have io: "int_of_str [a, b, c, d] = y" "int_of_str [e, f] = m" "int_of_str [g, h] = dd"
    using dg by (simp_all add: int_of_str_digits y_def m_def dd_def)
  have mv: "m = 10 * digit_val e + digit_val f" and dv: "dd = 10 * digit_val g + digit_val h"
    by (simp_all add: m_def dd_def val_of_def)
  have rng: "1 \<le> m" "m \<le> 12" "1 \<le> dd" "dd \<le> 31"
    using vd unfolding io valid_date_def days_in_month_def by (simp_all split: if_splits)
  have ms: "(e = CHR ''0'' \<and> f \<in> set ''123456789'') \<or> (e = CHR ''1'' \<and> f \<in> set ''012'')"
    using month_shape [OF dg(5,6)] rng(1,2) unfolding mv by blast
  have ds: "(g = CHR ''0'' \<and> h \<in> set ''123456789'')
       \<or> ((g = CHR ''1'' \<or> g = CHR ''2'') \<and> is_digit h) \<or> (g = CHR ''3'' \<and> h \<in> set ''01'')"
    using day_shape [OF dg(7,8)] rng(3,4) unfolding dv by blast
  from match_d [OF ds] obtain more where
    md: "match_groups [re_d] [g, h] = ([[g, h]], []) # more" by blast
  have mm: "match_groups [re_m, re_dash, re_d] [e, f, CHR ''-'', g, h]
            = map (\<lambda>(ms, r'). ([e, f] # ''-'' # ms, r')) (match_groups [re_d] [g, h])"
    by (rule match_m [OF ms])
  have m1: "match_groups [re_dash, re_m, re_dash, re_d] [CHR ''-'', e, f, CHR ''-'', g, h]
            = map (\<lambda>(ms, r'). (''-'' # ms, r'))
                (match_groups [re_m, re_dash, re_d] [e, f, CHR ''-'', g, h])"
    by (subst match_groups.simps) (simp add: match_dash del: match_groups.simps)
  have m0: "match_groups [re_Y, re_dash, re_m, re_dash, re_d] s
            = map (\<lambda>(ms, r'). ([a, b, c, d] # ms, r'))
                (match_groups [re_dash, re_m, re_dash, re_d] [CHR ''-'', e, f, CHR ''-'', g, h])"
    unfolding s
    by (subst match_groups.simps) (simp add: match_Y dg del: match_groups.simps)
  have all: "\<exists>more'. match_groups [re_Y, re_dash, re_m, re_dash, re_d] s
            = ([[a, b, c, d], ''-'', [e, f], ''-'', [g, h]], []) # more'"
    unfolding m0 m1 mm md by simp
  have p: "strptime s = Inr (y, m, dd)"
    using all vd by (auto simp: strptime_def io)
  have z4: "zero_pad 4 (str_nat y) = [a, b, c, d]"
    unfolding y_def by (rule zero_pad_digits) (simp_all add: dg)
  have z2: "zero_pad 2 (str_nat m) = [e, f]" "zero_pad 2 (str_nat dd) = [g, h]"
    unfolding m_def dd_def by (rule zero_pad_digits; simp add: dg)+
  have f1: "strftime True (y, m, dd) = s"
    by (simp add: strftime_def z4 z2 s)
  have f2: "strftime False (y, m, dd) = s" if "1000 \<le> y"
  proof -
    have "3 < length (str_nat y)"
      using length_str_nat_ge [of 3 y] that by simp
    then have "str_nat y = zero_pad 4 (str_nat y)"
      by (simp add: zero_pad_id)
    then show ?thesis
      by (simp add: strftime_def z4 z2 s)
  qed
  have "y = int_of_str (take 4 s)"
    by (simp add: s io)
  with p f1 f2 show ?thesis by blast
qed



lemma strptime_error: "strptime s = Inl e \<Longrightarrow> e = ValueError"
  by (auto simp: strptime_def Let_def split: list.splits prod.splits if_splits)

lemma py_strptime_rejected:
  "isl (strptime t) \<Longrightarrow> py_strptime (PStr t) w = (w, Inl ValueError)"
  by (cases "strptime t") (auto simp: py_strptime_def py_raise_def dest: strptime_error)

lemma py_strptime_accepted:
  "strptime t = Inr dt \<Longrightarrow> py_strptime (PStr t) w = (w, Inr dt)"
  by (simp add: py_strptime_def py_return_def)

lemma valid_ymd_nonempty: "valid_ymd s \<Longrightarrow> s \<noteq> []"
  by (auto simp: valid_ymd_def)

text \<open>
  Claim C4, amended. \<^verbatim>\<open>get_calendar\<close> has no \<^verbatim>\<open>ValidationError\<close>: for every non-empty
  start or end string that \<^verbatim>\<open>strptime\<close> refuses (the start absent or accepted when it is
  the end that is refused), the call fails with Python's \<^verbatim>\<open>ValueError\<close> and sends no
  request. An empty string is not refused: it counts as no date at all.
\<close>

theorem get_calendar_rejected_date:
  assumes "t \<noteq> []" and "isl (strptime t)"
  shows "snd (get_calendar ev (PStr t) e w) = Inl ValueError
     \<and> calls (fst (get_calendar ev (PStr t) e w)) = calls w
     \<and> (\<not> truthy st \<or> (\<exists>s. st = PStr s \<and> \<not> isl (strptime s))
        \<longrightarrow> snd (get_calendar ev st (PStr t) w) = Inl ValueError
          \<and> calls (fst (get_calendar ev st (PStr t) w)) = calls w)
     \<and> get_calendar ev (PStr []) e w = get_calendar ev PNone e w
     \<and> get_calendar ev e (PStr []) w = get_calendar ev e PNone w"
proof -
  have a: "snd (get_calendar ev (PStr t) e w) = Inl ValueError
     \<and> calls (fst (get_calendar ev (PStr t) e w)) = calls w"
    using assms
    by (simp add: get_calendar_def py_bind_def alloc_def py_strptime_rejected)
  have b: "snd (get_calendar ev st (PStr t) w) = Inl ValueError
          \<and> calls (fst (get_calendar ev st (PStr t) w)) = calls w"
    if "\<not> truthy st"
    using assms that
    by (simp add: get_calendar_def py_bind_def alloc_def py_strptime_rejected py_return_def)
  have c: "snd (get_calendar ev (PStr s) (PStr t) w) = Inl ValueError
          \<and> calls (fst (get_calendar ev (PStr s) (PStr t) w)) = calls w"
    if ns: "\<not> isl (strptime s)" for s
  proof -
    obtain dt where "\<And>w'. py_strptime (PStr s) w' = (w', Inr dt)"
      using ns by (cases "strptime s") (simp_all add: py_strptime_def py_return_def)
    then show ?thesis
      using assms
      by (simp add: get_calendar_def py_bind_def alloc_def py_strptime_rejected py_return_def
          deref_def heap_at_snoc store_def)
  qed
  have d: "get_calendar ev (PStr []) e w = get_calendar ev PNone e w"
    "get_calendar ev e (PStr []) w = get_calendar ev e PNone w"
    by (simp_all add: get_calendar_def)
  from a b c d show ?thesis by blast
qed


lemmas calendar_eval =
  get_calendar_def py_bind_def alloc_def py_return_def py_raise_def py_strptime_def
  strptime_def match_alts_def re_Y_def re_m_def re_d_def re_dash_def List.map_filter_def
  int_of_str_def digit_val_def valid_date_def days_in_month_def is_leap_def
  strftime_def zero_pad_def str_nat.simps deref_def heap_at_def store_def
  request_get_def send_def env0_def w0_def

theorem get_calendar_rejected_date_witness:
  "snd (get_calendar env0 (PStr ''2021-13-01'') PNone w0) = Inl ValueError
   \<and> calls (fst (get_calendar env0 (PStr ''2021-13-01'') PNone w0)) = []
   \<and> snd (get_calendar env0 PNone (PStr ''tomorrow'') w0) = Inl ValueError"
proof -
  have a: "''2021-13-01'' \<noteq> []" by simp
  have b: "isl (strptime ''2021-13-01'')" by (simp add: calendar_eval)
  have c: "''tomorrow'' \<noteq> []" by simp
  have d: "isl (strptime ''tomorrow'')" by (simp add: calendar_eval)
  show ?thesis
    using get_calendar_rejected_date [OF a b, of env0 PNone w0 PNone]
      get_calendar_rejected_date [OF c d, of env0 PNone w0 PNone]
    by (simp add: w0_def)
qed

text \<open>
  The claim as stated fails: the malformed \<^verbatim>\<open>"2021-13-01"\<close> raises \<^verbatim>\<open>ValueError\<close>, not
  \<^verbatim>\<open>ValidationError\<close>; the malformed \<^verbatim>\<open>""\<close> raises nothing and the GET is sent; and
  \<^verbatim>\<open>"2021-3-7"\<close>, which is not of the form \<^verbatim>\<open>YYYY-MM-DD\<close>, is accepted and sent as
  \<^verbatim>\<open>"2021-03-07"\<close>.
\<close>

theorem get_calendar_malformed_counterexample:
  "snd (get_calendar env0 (PStr ''2021-13-01'') PNone w0) \<noteq> Inl ValidationError
   \<and> snd (get_calendar env0 (PStr ''2021-13-01'') PNone w0) = Inl ValueError
   \<and> get_calendar env0 (PStr []) PNone w0 =
       (\<lparr>heap = [ODict []],
         calls = [(\<lparr>verb = GET, path = ''/api/calendar'', params = Ref 0, data = Val PNone\<rparr>,
                   [ODict []])]\<rparr>, Inr (Val PNone))
   \<and> get_calendar env0 (PStr ''2021-3-7'') PNone w0 =
       (\<lparr>heap = [ODict [(''start'', Val (PStr ''2021-03-07''))]],
         calls = [(\<lparr>verb = GET, path = ''/api/calendar'', params = Ref 0, data = Val PNone\<rparr>,
                   [ODict [(''start'', Val (PStr ''2021-03-07''))]])]\<rparr>, Inr (Val PNone))"
  by (simp add: calendar_eval)

text \<open>
  Claim C5, amended. For valid \<^verbatim>\<open>YYYY-MM-DD\<close> strings given as start and end, in a
  year from 1000 on or on a platform whose \<^verbatim>\<open>strftime\<close> pads the year to four digits,
  the \<^verbatim>\<open>start\<close> and \<^verbatim>\<open>end\<close> parameters that are sent are the strings themselves.
\<close>

theorem get_calendar_round_trip:
  assumes "valid_ymd s" and "valid_ymd t"
    and "pads_year ev \<or> (1000 \<le> int_of_str (take 4 s) \<and> 1000 \<le> int_of_str (take 4 t))"
  shows "(\<exists>r h. calls (fst (get_calendar ev (PStr s) (PStr t) w)) = calls w @ [(r, h)]
            \<and> verb r = GET \<and> path r = ''/api/calendar''
            \<and> dict_at h (params r) = Some [(''start'', Val (PStr s)), (''end'', Val (PStr t))])
     \<and> (\<exists>r h. calls (fst (get_calendar ev (PStr s) PNone w)) = calls w @ [(r, h)]
            \<and> verb r = GET \<and> path r = ''/api/calendar''
            \<and> dict_at h (params r) = Some [(''start'', Val (PStr s))])
     \<and> (\<exists>r h. calls (fst (get_calendar ev PNone (PStr t) w)) = calls w @ [(r, h)]
            \<and> verb r = GET \<and> path r = ''/api/calendar''
            \<and> dict_at h (params r) = Some [(''end'', Val (PStr t))])"
proof -
  obtain ds where ds: "\<And>w'. py_strptime (PStr s) w' = (w', Inr ds)" "strftime (pads_year ev) ds = s"
  proof -
    from strptime_valid [OF assms(1)] obtain y m d where
      p: "strptime s = Inr (y, m, d)" and y: "y = int_of_str (take 4 s)"
      and tt: "strftime True (y, m, d) = s" and ff: "1000 \<le> y \<longrightarrow> strftime False (y, m, d) = s"
      by blast
    have "strftime (pads_year ev) (y, m, d) = s"
      using assms(3) tt ff y by (cases "pads_year ev") auto
    with py_strptime_accepted [OF p] that show thesis by blast
  qed
  obtain dt where dt: "\<And>w'. py_strptime (PStr t) w' = (w', Inr dt)" "strftime (pads_year ev) dt = t"
  proof -
    from strptime_valid [OF assms(2)] obtain y m d where
      p: "strptime t = Inr (y, m, d)" and y: "y = int_of_str (take 4 t)"
      and tt: "strftime True (y, m, d) = t" and ff: "1000 \<le> y \<longrightarrow> strftime False (y, m, d) = t"
      by blast
    have "strftime (pads_year ev) (y, m, d) = t"
      using assms(3) tt ff y by (cases "pads_year ev") auto
    with py_strptime_accepted [OF p] that show thesis by blast
  qed
  have ne: "s \<noteq> []" "t \<noteq> []"
    using assms(1,2) by (simp_all add: valid_ymd_nonempty)
  show ?thesis
    using ne
    by (simp add: get_calendar_def py_bind_def alloc_def py_return_def ds dt deref_def
        heap_at_snoc store_def request_get_def calls_send)
qed

theorem get_calendar_round_trip_witness:
  "\<exists>r. calls (fst (get_calendar env0 (PStr ''2021-03-07'') (PStr ''2021-03-14'') w0))
          = [(r, [ODict [(''start'', Val (PStr ''2021-03-07'')),
                         (''end'', Val (PStr ''2021-03-14''))]])]
        \<and> verb r = GET \<and> path r = ''/api/calendar'' \<and> params r = Ref 0"
proof -
  have a: "valid_ymd ''2021-03-07''" "valid_ymd ''2021-03-14''"
    by (simp_all add: valid_ymd_def is_digit_def calendar_eval)
  have b: "pads_year env0 \<or> (1000 \<le> int_of_str (take 4 ''2021-03-07'')
             \<and> 1000 \<le> int_of_str (take 4 ''2021-03-14''))"
    by (simp add: calendar_eval)
  show ?thesis
    using get_calendar_round_trip [OF a b, of w0]
    by (simp add: calendar_eval)
qed

text \<open>
  The claim as stated fails where \<^verbatim>\<open>strftime\<close> does not pad the year: the valid
  \<^verbatim>\<open>"0999-01-01"\<close> is sent as \<^verbatim>\<open>"999-01-01"\<close>.
\<close>

theorem get_calendar_round_trip_counterexample:
  "valid_ymd ''0999-01-01'' \<and> \<not> pads_year env0
   \<and> get_calendar env0 (PStr ''0999-01-01'') PNone w0 =
       (\<lparr>heap = [ODict [(''start'', Val (PStr ''999-01-01''))]],
         calls = [(\<lparr>verb = GET, path = ''/api/calendar'', params = Ref 0, data = Val PNone\<rparr>,
                   [ODict [(''start'', Val (PStr ''999-01-01''))]])]\<rparr>, Inr (Val PNone))"
  by (simp add: valid_ymd_def is_digit_def calendar_eval)


section \<open>Series payload construction\<close>

lemma update_idem: "AList.update k v (AList.update k v d) = AList.update k v d"
  by (induction d) auto

lemma unmonitored_idem: "unmonitored (unmonitored ob) = unmonitored ob"
  by (cases ob) (simp_all add: update_idem)






















lemma calls_sent: "send ev r w = (w1, x) \<Longrightarrow> calls w1 = calls w @ [(r, heap w)]"
  using calls_send [of ev r w] by simp

lemma calls_lookup_series:
  "lookup_series ev t w = (w1, r) \<Longrightarrow>
   calls w1 = calls w @ [(\<lparr>verb = GET, path = ''/api/series/lookup'',
                            params = Ref (length (heap w)), data = Val PNone\<rparr>,
                          heap w @ [ODict [(''term'', Val t)]])]"
  by (auto simp: lookup_series_def py_bind_def alloc_def request_get_def dest!: calls_sent)

text \<open>
  Claim C1, amended. When the lookup returns an empty list, \<^verbatim>\<open>construct_series_json\<close>,
  and hence \<^verbatim>\<open>add_series\<close>, fails with Python's \<^verbatim>\<open>IndexError\<close> (from \<^verbatim>\<open>res[0]\<close>; the code
  has no \<^verbatim>\<open>NotFoundError\<close>), in the world the lookup left: the lookup's GET is the only
  request sent.
\<close>

theorem construct_series_json_empty_lookup:
  assumes "lookup_series ev tvdb_id w = (w1, Inr (Ref a))"
    and "heap_at (heap w1) a = Some (OList [])"
  shows "construct_series_json ev tvdb_id quality_profile_id root_dir season_folder monitored
           ignore_with ignore_without search_missing w = (w1, Inl IndexError)
     \<and> add_series ev tvdb_id quality_profile_id root_dir season_folder monitored
           ignore_with ignore_without search_missing w = (w1, Inl IndexError)
     \<and> calls w1 = calls w @ [(\<lparr>verb = GET, path = ''/api/series/lookup'',
                                params = Ref (length (heap w)), data = Val PNone\<rparr>,
                              heap w @ [ODict [(''term'', Val tvdb_id)]])]"
proof -
  have c: "construct_series_json ev tvdb_id quality_profile_id root_dir sf mon
           i1 i2 i3 w = (w1, Inl IndexError)" for sf mon i1 i2 i3
    using assms
    by (simp add: construct_series_json_def py_bind_def deref_def index_list_def py_raise_def)
  have "add_series ev tvdb_id quality_profile_id root_dir season_folder monitored
           ignore_with ignore_without search_missing w = (w1, Inl IndexError)"
    by (simp add: add_series_def py_bind_def c)
  with c calls_lookup_series [OF assms(1)] show ?thesis by simp
qed

lemmas series_eval =
  construct_series_json_def add_series_def lookup_series_def py_bind_def alloc_def
  py_return_def py_raise_def deref_def heap_at_def store_def index_list_def dflt_def
  request_get_def request_post_def send_def env_empty_def env_series_def w0_def

theorem construct_series_json_empty_lookup_witness:
  "construct_series_json env_empty (PInt 42) (PInt 1) ''/tv/'' None None None None None w0
     = (\<lparr>heap = [ODict [(''term'', Val (PInt 42))], OList []],
         calls = [(\<lparr>verb = GET, path = ''/api/series/lookup'', params = Ref 0,
                     data = Val PNone\<rparr>, [ODict [(''term'', Val (PInt 42))]])]\<rparr>,
        Inl IndexError)
   \<and> snd (add_series env_empty (PInt 42) (PInt 1) ''/tv/'' None None None None None w0)
       = Inl IndexError"
proof -
  have a: "lookup_series env_empty (PInt 42) w0
     = (\<lparr>heap = [ODict [(''term'', Val (PInt 42))], OList []],
         calls = [(\<lparr>verb = GET, path = ''/api/series/lookup'', params = Ref 0,
                     data = Val PNone\<rparr>, [ODict [(''term'', Val (PInt 42))]])]\<rparr>,
        Inr (Ref 1))"
    by (simp add: series_eval)
  have b: "heap_at (heap \<lparr>heap = [ODict [(''term'', Val (PInt 42))], OList []],
         calls = [(\<lparr>verb = GET, path = ''/api/series/lookup'', params = Ref 0,
                     data = Val PNone\<rparr>, [ODict [(''term'', Val (PInt 42))]])]\<rparr>) 1
       = Some (OList [])"
    by (simp add: heap_at_def)
  show ?thesis
    using construct_series_json_empty_lookup [OF a b, of "PInt 1" "''/tv/''" None None None None None]
    by simp
qed

text \<open>
  The claim as stated fails: on an empty lookup result the error is \<^verbatim>\<open>IndexError\<close>, not
  \<^verbatim>\<open>NotFoundError\<close>.
\<close>

theorem construct_series_json_not_found_counterexample:
  "snd (construct_series_json env_empty (PInt 42) (PInt 1) ''/tv/'' None None None None None w0)
     \<noteq> Inl NotFoundError
   \<and> snd (construct_series_json env_empty (PInt 42) (PInt 1) ''/tv/'' None None None None None w0)
     = Inl IndexError
   \<and> heap (fst (lookup_series env_empty (PInt 42) w0)) ! 1 = OList []
   \<and> snd (lookup_series env_empty (PInt 42) w0) = Inr (Ref 1)"
  by (simp add: series_eval)



lemma seasons_loop_ok:
  assumes "\<forall>e\<in>set es. \<exists>b dd. e = Ref b \<and> heap_at (heap w) b = Some (ODict dd)"
  shows "\<exists>w'. seasons_loop es w = (w', Inr ()) \<and> calls w' = calls w
          \<and> length (heap w') = length (heap w)
          \<and> (\<forall>a<length (heap w). heap w' ! a =
                (if Ref a \<in> set es then unmonitored (heap w ! a) else heap w ! a))"
  using assms
proof (induction es arbitrary: w)
  case Nil
  then show ?case by (simp add: py_return_def)
next
  case (Cons e es)
  then obtain b dd where e: "e = Ref b" and hb: "heap_at (heap w) b = Some (ODict dd)"
    by auto
  from hb have bl: "b < length (heap w)" and hb': "heap w ! b = ODict dd"
    by (auto simp: heap_at_def split: if_splits)
  define w1 where "w1 = w\<lparr>heap := (heap w)[b := unmonitored (ODict dd)]\<rparr>"
  have st: "py_setitem e ''monitored'' (Val (PBool False)) w = (w1, Inr ())"
    by (simp add: e py_bind_def deref_def hb store_def w1_def)
  have h1: "heap w1 ! a = (if a = b then unmonitored (heap w ! a) else heap w ! a)"
    if "a < length (heap w)" for a
    using that hb' by (simp add: w1_def nth_list_update)
  have l1: "length (heap w1) = length (heap w)" and c1: "calls w1 = calls w"
    by (simp_all add: w1_def)
  have pre: "\<forall>e'\<in>set es. \<exists>b' dd'. e' = Ref b' \<and> heap_at (heap w1) b' = Some (ODict dd')"
  proof
    fix e' assume "e' \<in> set es"
    with Cons.prems obtain b' dd' where
      e': "e' = Ref b'" and hb2: "heap_at (heap w) b' = Some (ODict dd')" by auto
    from hb2 have "b' < length (heap w)" "heap w ! b' = ODict dd'"
      by (auto simp: heap_at_def split: if_splits)
    then have "\<exists>dd2. heap_at (heap w1) b' = Some (ODict dd2)"
      using h1 [of b'] l1 by (auto simp: heap_at_def)
    with e' show "\<exists>b' dd'. e' = Ref b' \<and> heap_at (heap w1) b' = Some (ODict dd')" by blast
  qed
  from Cons.IH [OF pre] obtain w' where
    lp: "seasons_loop es w1 = (w', Inr ())" and c2: "calls w' = calls w1"
    and l2: "length (heap w') = length (heap w1)"
    and h2: "\<forall>a<length (heap w1). heap w' ! a =
                (if Ref a \<in> set es then unmonitored (heap w1 ! a) else heap w1 ! a)"
    by blast
  have "seasons_loop (e # es) w = (w', Inr ())"
    by (simp add: py_bind_def st lp)
  moreover have "calls w' = calls w" using c1 c2 by simp
  moreover have "length (heap w') = length (heap w)" using l1 l2 by simp
  moreover have "\<forall>a<length (heap w). heap w' ! a =
                (if Ref a \<in> set (e # es) then unmonitored (heap w ! a) else heap w ! a)"
  proof (intro allI impI)
    fix a assume a: "a < length (heap w)"
    with h2 l1 have "heap w' ! a =
        (if Ref a \<in> set es then unmonitored (heap w1 ! a) else heap w1 ! a)" by simp
    with h1 [OF a] show "heap w' ! a =
        (if Ref a \<in> set (e # es) then unmonitored (heap w ! a) else heap w ! a)"
      by (auto simp: e unmonitored_idem)
  qed
  ultimately show ?case by blast
qed

lemma map_of_unmonitored:
  "k \<noteq> ''monitored'' \<Longrightarrow> map_of (AList.update ''monitored'' v d) k = map_of d k"
  by (simp add: update_conv')

text \<open>The world after lines 36-38, for a first match that is a well-formed descriptor.\<close>

lemma unmonitor_block:
  assumes sd: "heap_at (heap w1) s = Some (ODict d)"
    and se: "map_of d ''seasons'' = Some (Ref l)"
    and sl: "heap_at (heap w1) l = Some (OList es)"
    and en: "\<not> mon \<Longrightarrow> \<forall>e\<in>set es. \<exists>b dd. e = Ref b \<and> heap_at (heap w1) b = Some (ODict dd)"
  shows "\<exists>w2. (if \<not> mon
               then py_bind (py_get (Ref s) ''seasons'') (\<lambda>found.
                    py_bind (py_truthy found) (\<lambda>nonempty.
                    if nonempty
                    then py_bind (py_item (Ref s) ''seasons'') (\<lambda>ss.
                         py_bind (py_iter ss) seasons_loop)
                    else py_return ()))
               else py_return ()) w1 = (w2, Inr ())
          \<and> calls w2 = calls w1 \<and> length (heap w2) = length (heap w1)
          \<and> (\<forall>a<length (heap w1). heap w2 ! a =
                (if \<not> mon \<and> Ref a \<in> set es then unmonitored (heap w1 ! a) else heap w1 ! a))"
proof (cases mon)
  case True
  then show ?thesis by (simp add: py_return_def)
next
  case False
  show ?thesis
  proof (cases "es = []")
    case True
    then show ?thesis
      using False sd se sl by (simp add: py_bind_def deref_def py_return_def)
  next
    case ne: False
    from seasons_loop_ok [OF en [OF False]] obtain w2 where
      "seasons_loop es w1 = (w2, Inr ())" "calls w2 = calls w1"
      "length (heap w2) = length (heap w1)"
      "\<forall>a<length (heap w1). heap w2 ! a =
                (if Ref a \<in> set es then unmonitored (heap w1 ! a) else heap w1 ! a)"
      by blast
    then show ?thesis
      using False ne sd se sl by (simp add: py_bind_def deref_def py_return_def)
  qed
qed

lemma construct_ok:
  assumes lk: "lookup_series ev tvdb_id w = (w1, Inr (Ref r))"
    and res: "heap_at (heap w1) r = Some (OList (Ref s # others))"
    and sd: "heap_at (heap w1) s = Some (ODict d)"
    and ti: "map_of d ''title'' = Some (Val (PStr t))"
    and se: "map_of d ''seasons'' = Some (Ref l)"
    and im: "map_of d ''images'' = Some iv"
    and ts: "map_of d ''titleSlug'' = Some sv"
    and sl: "heap_at (heap w1) l = Some (OList es)"
    and en: "\<not> dflt True monitored \<Longrightarrow>
             \<forall>e\<in>set es. \<exists>b dd. e = Ref b \<and> heap_at (heap w1) b = Some (ODict dd)"
  shows "\<exists>w'. construct_series_json ev tvdb_id quality_profile_id root_dir season_folder
                 monitored ignore_with ignore_without search_missing w
               = (w', Inr (Ref (Suc (length (heap w1)))))
          \<and> calls w' = calls w1
          \<and> length (heap w') = Suc (Suc (length (heap w1)))
          \<and> heap w' ! Suc (length (heap w1)) = ODict
               [(''title'', Val (PStr t)),
                (''seasons'', Ref l),
                (''path'', Val (PStr (root_dir @ t))),
                (''qualityProfileId'', Val quality_profile_id),
                (''seasonFolder'', Val (PBool (dflt True season_folder))),
                (''monitored'', Val (PBool (dflt True monitored))),
                (''tvdbId'', Val tvdb_id),
                (''images'', iv),
                (''titleSlug'', sv),
                (''addOptions'', Ref (length (heap w1)))]
          \<and> heap w' ! length (heap w1) = ODict
               [(''ignoreEpisodesWithFiles'', Val (PBool (dflt False ignore_with))),
                (''ignoreEpisodesWithoutFiles'', Val (PBool (dflt False ignore_without))),
                (''searchForMissingEpisodes'', Val (PBool (dflt False search_missing)))]
          \<and> (\<forall>a<length (heap w1). heap w' ! a =
                (if \<not> dflt True monitored \<and> Ref a \<in> set es
                 then unmonitored (heap w1 ! a) else heap w1 ! a))"
proof -
  have idx: "py_index (Ref r) 0 w1 = (w1, Inr (Ref s))"
    using res by (simp add: py_bind_def deref_def index_list_def py_return_def)
  from unmonitor_block [OF sd se sl en, of "dflt True monitored"] obtain w2 where
    blk: "(if \<not> dflt True monitored
               then py_bind (py_get (Ref s) ''seasons'') (\<lambda>found.
                    py_bind (py_truthy found) (\<lambda>nonempty.
                    if nonempty
                    then py_bind (py_item (Ref s) ''seasons'') (\<lambda>ss.
                         py_bind (py_iter ss) seasons_loop)
                    else py_return ()))
               else py_return ()) w1 = (w2, Inr ())"
    and c2: "calls w2 = calls w1" and l2: "length (heap w2) = length (heap w1)"
    and h2: "\<forall>a<length (heap w1). heap w2 ! a =
                (if \<not> dflt True monitored \<and> Ref a \<in> set es
                 then unmonitored (heap w1 ! a) else heap w1 ! a)"
    by blast
  from sd have sl1: "s < length (heap w1)" and s1: "heap w1 ! s = ODict d"
    by (auto simp: heap_at_def split: if_splits)
  obtain d2 where s2: "heap_at (heap w2) s = Some (ODict d2)"
    and keys: "\<And>k. k \<noteq> ''monitored'' \<Longrightarrow> map_of d2 k = map_of d k"
  proof (cases "\<not> dflt True monitored \<and> Ref s \<in> set es")
    case True
    with h2 sl1 s1 have "heap w2 ! s = ODict (AList.update ''monitored'' (Val (PBool False)) d)"
      by simp
    then have "heap_at (heap w2) s = Some (ODict (AList.update ''monitored'' (Val (PBool False)) d))"
      using sl1 l2 by (simp add: heap_at_def)
    then show thesis by (rule that) (simp add: map_of_unmonitored)
  next
    case False
    with h2 sl1 s1 have "heap w2 ! s = ODict d" by auto
    then have "heap_at (heap w2) s = Some (ODict d)"
      using sl1 l2 by (simp add: heap_at_def)
    then show thesis by (rule that) simp
  qed
  have item: "py_item (Ref s) k w2 = (w2, Inr v)" if "map_of d k = Some v" "k \<noteq> ''monitored''" for k v
    using that keys [of k] s2 by (simp add: py_bind_def deref_def py_return_def)
  have i1: "py_item (Ref s) ''title'' w2 = (w2, Inr (Val (PStr t)))"
    by (rule item [OF ti]) simp
  have i2: "py_item (Ref s) ''seasons'' w2 = (w2, Inr (Ref l))"
    by (rule item [OF se]) simp
  have i3: "py_item (Ref s) ''images'' w2 = (w2, Inr iv)"
    by (rule item [OF im]) simp
  have i4: "py_item (Ref s) ''titleSlug'' w2 = (w2, Inr sv)"
    by (rule item [OF ts]) simp
  show ?thesis
    unfolding construct_series_json_def
    using h2
    by (simp add: py_bind_def lk idx blk i1 i2 i3 i4 alloc_def py_return_def c2 l2 nth_append
             del: py_item.simps py_get.simps py_truthy.simps py_iter.simps py_index.simps)
qed

text \<open>
  Claim C2. Let the first match of the lookup result be a descriptor (a dict with
  \<^verbatim>\<open>title\<close>, \<^verbatim>\<open>seasons\<close>, \<^verbatim>\<open>images\<close>, \<^verbatim>\<open>titleSlug\<close>) whose \<^verbatim>\<open>seasons\<close> is a list of N season
  dicts. With \<^verbatim>\<open>monitored=False\<close> the call returns a payload whose \<^verbatim>\<open>"seasons"\<close> is that
  list, still of the same N entries, each now with \<^verbatim>\<open>"monitored"\<close> equal to \<^verbatim>\<open>False\<close>
  whatever it was. With \<^verbatim>\<open>monitored\<close> true (or left out) the payload's \<^verbatim>\<open>"seasons"\<close> is
  that list and no object of the lookup result has changed.
\<close>

theorem construct_series_json_seasons:
  assumes lk: "lookup_series ev tvdb_id w = (w1, Inr (Ref r))"
    and res: "heap_at (heap w1) r = Some (OList (Ref s # others))"
    and sd: "heap_at (heap w1) s = Some (ODict d)"
    and ti: "map_of d ''title'' = Some (Val (PStr t))"
    and se: "map_of d ''seasons'' = Some (Ref l)"
    and im: "map_of d ''images'' = Some iv"
    and ts: "map_of d ''titleSlug'' = Some sv"
    and sl: "heap_at (heap w1) l = Some (OList es)"
    and en: "\<forall>e\<in>set es. \<exists>b dd. e = Ref b \<and> heap_at (heap w1) b = Some (ODict dd)"
  shows "(\<exists>w' p pd.
            construct_series_json ev tvdb_id quality_profile_id root_dir season_folder
              (Some False) ignore_with ignore_without search_missing w = (w', Inr (Ref p))
          \<and> heap_at (heap w') p = Some (ODict pd)
          \<and> map_of pd ''seasons'' = Some (Ref l)
          \<and> heap_at (heap w') l = Some (OList es)
          \<and> (\<forall>e\<in>set es. \<exists>b dd. e = Ref b \<and> heap_at (heap w') b = Some (ODict dd)
                \<and> map_of dd ''monitored'' = Some (Val (PBool False))))
     \<and> (dflt True monitored \<longrightarrow>
         (\<exists>w' p pd.
            construct_series_json ev tvdb_id quality_profile_id root_dir season_folder
              monitored ignore_with ignore_without search_missing w = (w', Inr (Ref p))
          \<and> heap_at (heap w') p = Some (ODict pd)
          \<and> map_of pd ''seasons'' = Some (Ref l)
          \<and> (\<forall>a<length (heap w1). heap_at (heap w') a = heap_at (heap w1) a)))"
proof (intro conjI impI)
  from construct_ok [OF lk res sd ti se im ts sl, of "Some False" quality_profile_id root_dir
      season_folder ignore_with ignore_without search_missing] en
  obtain w' where
    c: "construct_series_json ev tvdb_id quality_profile_id root_dir season_folder
          (Some False) ignore_with ignore_without search_missing w
        = (w', Inr (Ref (Suc (length (heap w1)))))"
    and len: "length (heap w') = Suc (Suc (length (heap w1)))"
    and pl: "\<exists>pd. heap w' ! Suc (length (heap w1)) = ODict pd
              \<and> map_of pd ''seasons'' = Some (Ref l)"
    and old: "\<forall>a<length (heap w1). heap w' ! a =
                (if Ref a \<in> set es then unmonitored (heap w1 ! a) else heap w1 ! a)"
    by (auto simp: dflt_def)
  from pl len obtain pd where
    p1: "heap_at (heap w') (Suc (length (heap w1))) = Some (ODict pd)"
    and p2: "map_of pd ''seasons'' = Some (Ref l)"
    by (auto simp: heap_at_def)
  from sl have ll: "l < length (heap w1)" "heap w1 ! l = OList es"
    by (auto simp: heap_at_def split: if_splits)
  with old have "heap w' ! l = OList es" by auto
  with ll len have p3: "heap_at (heap w') l = Some (OList es)"
    by (simp add: heap_at_def)
  have p4: "\<forall>e\<in>set es. \<exists>b dd. e = Ref b \<and> heap_at (heap w') b = Some (ODict dd)
                \<and> map_of dd ''monitored'' = Some (Val (PBool False))"
  proof
    fix e assume e: "e \<in> set es"
    with en obtain b dd where b: "e = Ref b" "heap_at (heap w1) b = Some (ODict dd)" by blast
    then have bl: "b < length (heap w1)" "heap w1 ! b = ODict dd"
      by (auto simp: heap_at_def split: if_splits)
    with old e b(1) have "heap w' ! b = ODict (AList.update ''monitored'' (Val (PBool False)) dd)"
      by auto
    with bl len have "heap_at (heap w') b
        = Some (ODict (AList.update ''monitored'' (Val (PBool False)) dd))"
      by (simp add: heap_at_def)
    with b(1) show "\<exists>b dd. e = Ref b \<and> heap_at (heap w') b = Some (ODict dd)
                \<and> map_of dd ''monitored'' = Some (Val (PBool False))"
      by (auto simp: update_conv')
  qed
  from c p1 p2 p3 p4 show "\<exists>w' p pd.
            construct_series_json ev tvdb_id quality_profile_id root_dir season_folder
              (Some False) ignore_with ignore_without search_missing w = (w', Inr (Ref p))
          \<and> heap_at (heap w') p = Some (ODict pd)
          \<and> map_of pd ''seasons'' = Some (Ref l)
          \<and> heap_at (heap w') l = Some (OList es)
          \<and> (\<forall>e\<in>set es. \<exists>b dd. e = Ref b \<and> heap_at (heap w') b = Some (ODict dd)
                \<and> map_of dd ''monitored'' = Some (Val (PBool False)))"
    by blast
next
  assume m: "dflt True monitored"
  from construct_ok [OF lk res sd ti se im ts sl, of monitored quality_profile_id root_dir
      season_folder ignore_with ignore_without search_missing] m
  obtain w' where
    c: "construct_series_json ev tvdb_id quality_profile_id root_dir season_folder
          monitored ignore_with ignore_without search_missing w
        = (w', Inr (Ref (Suc (length (heap w1)))))"
    and len: "length (heap w') = Suc (Suc (length (heap w1)))"
    and pl: "\<exists>pd. heap w' ! Suc (length (heap w1)) = ODict pd
              \<and> map_of pd ''seasons'' = Some (Ref l)"
    and old: "\<forall>a<length (heap w1). heap w' ! a = heap w1 ! a"
    by auto
  from pl len obtain pd where
    p1: "heap_at (heap w') (Suc (length (heap w1))) = Some (ODict pd)"
    and p2: "map_of pd ''seasons'' = Some (Ref l)"
    by (auto simp: heap_at_def)
  from old len have p3: "\<forall>a<length (heap w1). heap_at (heap w') a = heap_at (heap w1) a"
    by (simp add: heap_at_def)
  from c p1 p2 p3 show "\<exists>w' p pd.
            construct_series_json ev tvdb_id quality_profile_id root_dir season_folder
              monitored ignore_with ignore_without search_missing w = (w', Inr (Ref p))
          \<and> heap_at (heap w') p = Some (ODict pd)
          \<and> map_of pd ''seasons'' = Some (Ref l)
          \<and> (\<forall>a<length (heap w1). heap_at (heap w') a = heap_at (heap w1) a)"
    by blast
qed

text \<open>
  Claim C6. For every root directory string and every lookup result whose first match
  is a descriptor with the title \<open>t\<close>, the payload's \<^verbatim>\<open>"path"\<close> is the root directory
  followed by \<open>t\<close>, nothing in between, and its \<^verbatim>\<open>"title"\<close> is \<open>t\<close>.
\<close>

theorem construct_series_json_path:
  assumes lk: "lookup_series ev tvdb_id w = (w1, Inr (Ref r))"
    and res: "heap_at (heap w1) r = Some (OList (Ref s # others))"
    and sd: "heap_at (heap w1) s = Some (ODict d)"
    and ti: "map_of d ''title'' = Some (Val (PStr t))"
    and se: "map_of d ''seasons'' = Some (Ref l)"
    and im: "map_of d ''images'' = Some iv"
    and ts: "map_of d ''titleSlug'' = Some sv"
    and sl: "heap_at (heap w1) l = Some (OList es)"
    and en: "\<not> dflt True monitored \<Longrightarrow>
             \<forall>e\<in>set es. \<exists>b dd. e = Ref b \<and> heap_at (heap w1) b = Some (ODict dd)"
  shows "\<exists>w' p pd.
            construct_series_json ev tvdb_id quality_profile_id root_dir season_folder
              monitored ignore_with ignore_without search_missing w = (w', Inr (Ref p))
          \<and> heap_at (heap w') p = Some (ODict pd)
          \<and> map_of pd ''title'' = Some (Val (PStr t))
          \<and> map_of pd ''path'' = Some (Val (PStr (root_dir @ t)))"
proof -
  from en construct_ok [where monitored = monitored
        and quality_profile_id = quality_profile_id and root_dir = root_dir
        and season_folder = season_folder and ignore_with = ignore_with
        and ignore_without = ignore_without and search_missing = search_missing,
      OF lk res sd ti se im ts sl]
  obtain w' where
    c: "construct_series_json ev tvdb_id quality_profile_id root_dir season_folder
          monitored ignore_with ignore_without search_missing w
        = (w', Inr (Ref (Suc (length (heap w1)))))"
    and len: "length (heap w') = Suc (Suc (length (heap w1)))"
    and pl: "\<exists>pd. heap w' ! Suc (length (heap w1)) = ODict pd
              \<and> map_of pd ''title'' = Some (Val (PStr t))
              \<and> map_of pd ''path'' = Some (Val (PStr (root_dir @ t)))"
    by auto
  from pl len obtain pd where
    "heap_at (heap w') (Suc (length (heap w1))) = Some (ODict pd)"
    "map_of pd ''title'' = Some (Val (PStr t))"
    "map_of pd ''path'' = Some (Val (PStr (root_dir @ t)))"
    by (auto simp: heap_at_def)
  with c show ?thesis by blast
qed

lemma series_lookup:
  "lookup_series env_series (PInt 42) w0 = (w_series, Inr (Ref 5))"
  "heap w_series =
     [ODict [(''term'', Val (PInt 42))],
      ODict [(''seasonNumber'', Val (PInt 1)), (''monitored'', Val (PBool True))],
      OList [Ref 1],
      OList [],
      ODict [(''title'', Val (PStr ''Show'')), (''seasons'', Ref 2),
             (''images'', Ref 3), (''titleSlug'', Val (PStr ''show''))],
      OList [Ref 4]]"
  by (simp_all add: w_series_def series_eval)

theorem construct_series_json_seasons_witness:
  "\<exists>w' p pd dd.
      construct_series_json env_series (PInt 42) (PInt 1) ''/tv/'' None (Some False)
        None None None w0 = (w', Inr (Ref p))
    \<and> heap_at (heap w') p = Some (ODict pd)
    \<and> map_of pd ''seasons'' = Some (Ref 2)
    \<and> heap_at (heap w') 2 = Some (OList [Ref 1])
    \<and> heap_at (heap w') 1 = Some (ODict dd)
    \<and> map_of dd ''monitored'' = Some (Val (PBool False))"
proof -
  have res: "heap_at (heap w_series) 5 = Some (OList (Ref 4 # []))"
    and sd: "heap_at (heap w_series) 4 = Some (ODict
               [(''title'', Val (PStr ''Show'')), (''seasons'', Ref 2),
                (''images'', Ref 3), (''titleSlug'', Val (PStr ''show''))])"
    and sl: "heap_at (heap w_series) 2 = Some (OList [Ref 1])"
    and en: "\<forall>e\<in>set [Ref 1]. \<exists>b dd. e = Ref b \<and> heap_at (heap w_series) b = Some (ODict dd)"
    by (simp_all add: series_lookup(2) heap_at_def)
  have ks: "map_of [(''title'', Val (PStr ''Show'')), (''seasons'', Ref 2),
                (''images'', Ref 3), (''titleSlug'', Val (PStr ''show''))] ''title''
              = Some (Val (PStr ''Show''))"
    "map_of [(''title'', Val (PStr ''Show'')), (''seasons'', Ref 2),
                (''images'', Ref 3), (''titleSlug'', Val (PStr ''show''))] ''seasons''
              = Some (Ref 2)"
    "map_of [(''title'', Val (PStr ''Show'')), (''seasons'', Ref 2),
                (''images'', Ref 3), (''titleSlug'', Val (PStr ''show''))] ''images''
              = Some (Ref 3)"
    "map_of [(''title'', Val (PStr ''Show'')), (''seasons'', Ref 2),
                (''images'', Ref 3), (''titleSlug'', Val (PStr ''show''))] ''titleSlug''
              = Some (Val (PStr ''show''))"
    by simp_all
  show ?thesis
    using construct_series_json_seasons [OF series_lookup(1) res sd ks sl en,
        of "PInt 1" "''/tv/''" None None None None None]
    by auto
qed

theorem construct_series_json_path_witness:
  "\<exists>w' p pd.
      construct_series_json env_series (PInt 42) (PInt 1) ''/tv/'' None None
        None None None w0 = (w', Inr (Ref p))
    \<and> heap_at (heap w') p = Some (ODict pd)
    \<and> map_of pd ''title'' = Some (Val (PStr ''Show''))
    \<and> map_of pd ''path'' = Some (Val (PStr ''/tv/Show''))"
proof -
  have res: "heap_at (heap w_series) 5 = Some (OList (Ref 4 # []))"
    and sd: "heap_at (heap w_series) 4 = Some (ODict
               [(''title'', Val (PStr ''Show'')), (''seasons'', Ref 2),
                (''images'', Ref 3), (''titleSlug'', Val (PStr ''show''))])"
    and sl: "heap_at (heap w_series) 2 = Some (OList [Ref 1])"
    by (simp_all add: series_lookup(2) heap_at_def)
  have en: "\<not> dflt True None \<Longrightarrow>
      \<forall>e\<in>set [Ref 1]. \<exists>b dd. e = Ref b \<and> heap_at (heap w_series) b = Some (ODict dd)"
    by (simp add: dflt_def)
  have ks: "map_of [(''title'', Val (PStr ''Show'')), (''seasons'', Ref 2),
                (''images'', Ref 3), (''titleSlug'', Val (PStr ''show''))] ''title''
              = Some (Val (PStr ''Show''))"
    "map_of [(''title'', Val (PStr ''Show'')), (''seasons'', Ref 2),
                (''images'', Ref 3), (''titleSlug'', Val (PStr ''show''))] ''seasons''
              = Some (Ref 2)"
    "map_of [(''title'', Val (PStr ''Show'')), (''seasons'', Ref 2),
                (''images'', Ref 3), (''titleSlug'', Val (PStr ''show''))] ''images''
              = Some (Ref 3)"
    "map_of [(''title'', Val (PStr ''Show'')), (''seasons'', Ref 2),
                (''images'', Ref 3), (''titleSlug'', Val (PStr ''show''))] ''titleSlug''
              = Some (Val (PStr ''show''))"
    by simp_all
  show ?thesis
    using construct_series_json_path [where monitored = None
        and quality_profile_id = "PInt 1" and root_dir = "''/tv/''" and season_folder = None
        and ignore_with = None and ignore_without = None and search_missing = None,
        OF series_lookup(1) res sd ks sl en]
    by simp
qed

end
